theory Spec2Isabelle
  imports Complex_Main "HOL-Library.Char_ord" "HOL-Library.List_Lexorder"
    "HOL-Library.Product_Lexorder"
begin

section \<open>The project allocator of \<open>block.py\<close>\<close>

text \<open>
  The development embeds the project half of \<open>block.py\<close>: the conflict checker
  \<open>project_conflicts\<close>, the allocator \<open>assign_project\<close> and the history updater
  \<open>update_project_history\<close>. File input and output (the loaders, the CSV writer, the JSON
  dump taken when \<open>fname\<close> is given) are left out, and so are the banner lines each function
  prints on entry; the diagnostic lines about a group or a conflict are kept as a list of
  messages.
\<close>

subsection \<open>Data\<close>

text \<open>
  A TA login and a student login are Python strings. A group (\<open>pair\<close> in the source) is a
  Python set of student logins; it is represented by the list of its elements in the order
  in which \<open>for student in pair\<close> visits them, and membership is \<open>student \<in> set pair\<close>.
  The set \<open>tas\<close> is represented in the same way, by the order in which
  \<open>list(tas.copy())\<close> enumerates it, the same in every round since the set is never
  changed. \<open>dict.fromkeys(tas)\<close> is given that order too; the order of the entries of
  \<open>ta2groups\<close> decides nothing but the order of the lines the conflict checker prints.
  Strings are compared by character code, as Python compares them.
  \<open>history\<close> and \<open>blocks\<close> are dictionaries from a TA to a set of students and are only ever
  indexed: partial maps. \<open>ta2groups\<close> is a dictionary that is iterated with \<open>.items()\<close>: an
  association list in insertion order.
\<close>

type_synonym ta = string
type_synonym student = string
type_synonym group = "student list"
type_synonym students_of = "ta \<rightharpoonup> student set"
type_synonym ta2groups = "(ta \<times> group list) list"

text \<open>
  The exceptions. \<open>ZeroDivisionError\<close>, \<open>KeyError\<close> and \<open>AssertionError\<close> are the ones the
  modelled functions can raise. \<open>ConfigurationError\<close> is the error class the specification
  names for an empty staff set; no statement of the source raises it.
\<close>

datatype error = ZeroDivisionError | KeyError | AssertionError | ConfigurationError

text \<open>The diagnostic lines: the three \<open>print\<close> calls that mention a group or a block.\<close>

datatype msg =
    Conflicts_with_all group  \<comment> \<open>\<open>Group {0} had conflicts with all options\<close>\<close>
  | Over_capacity group       \<comment> \<open>\<open>Group {0} placed over capacity\<close>\<close>
  | Conflict_requested_by ta  \<comment> \<open>\<open>Conflict: block requested by {0}\<close>\<close>

subsection \<open>The conflict checker\<close>

text \<open>
  Modelled from the spec: \<open>find_conflict\<close> is called by \<open>project_conflicts\<close> but is not
  defined in the source file. The specification (section 4.3) says that a conflict exists if
  the student is in that staff's block set, and (section 4.1) that an absent key is an empty
  set. The source only tests the result for truth and prints its component 1 as the one who
  requested the block, so the result is an optional pair whose second component is the TA.
\<close>

definition find_conflict :: "ta \<Rightarrow> student \<Rightarrow> students_of \<Rightarrow> (student \<times> ta) option" where
  "find_conflict ta student blocks =
     (case blocks ta of
        None \<Rightarrow> None
      | Some b \<Rightarrow> if student \<in> b then Some (student, ta) else None)"

text \<open>
  The three nested loops of \<open>project_conflicts\<close>, innermost first. The accumulator is the
  flag \<open>found_conflict\<close> together with the lines printed so far.
\<close>

fun conflicts_in_pair :: "ta \<Rightarrow> students_of \<Rightarrow> group \<Rightarrow> bool \<times> msg list \<Rightarrow> bool \<times> msg list" where
  "conflicts_in_pair ta blocks [] acc = acc"
| "conflicts_in_pair ta blocks (student # pair) acc =
     (case find_conflict ta student blocks of
        None \<Rightarrow> conflicts_in_pair ta blocks pair acc
      | Some c \<Rightarrow> conflicts_in_pair ta blocks pair (True, snd acc @ [Conflict_requested_by (snd c)]))"

fun conflicts_in_groups :: "ta \<Rightarrow> students_of \<Rightarrow> group list \<Rightarrow> bool \<times> msg list \<Rightarrow> bool \<times> msg list" where
  "conflicts_in_groups ta blocks [] acc = acc"
| "conflicts_in_groups ta blocks (pair # groups) acc =
     conflicts_in_groups ta blocks groups (conflicts_in_pair ta blocks pair acc)"

fun conflicts_in_items :: "students_of \<Rightarrow> ta2groups \<Rightarrow> bool \<times> msg list \<Rightarrow> bool \<times> msg list" where
  "conflicts_in_items blocks [] acc = acc"
| "conflicts_in_items blocks ((ta, groups) # items) acc =
     conflicts_in_items blocks items (conflicts_in_groups ta blocks groups acc)"

definition project_conflicts :: "ta2groups \<Rightarrow> students_of \<Rightarrow> bool \<times> msg list" where
  "project_conflicts ta2groups blocks = conflicts_in_items blocks ta2groups (False, [])"

subsection \<open>The allocator\<close>

text \<open>\<open>dict.fromkeys(tas)\<close> followed by \<open>ta2groups[g] = list()\<close> for every key.\<close>

definition init_ta2groups :: "ta list \<Rightarrow> ta2groups" where
  "init_ta2groups tas = map (\<lambda>ta. (ta, [])) tas"

text \<open>
  \<open>ta2groups[ta]\<close> and its length. The allocator indexes \<open>ta2groups\<close> first in the key
  function of \<open>sorted\<close>, for every TA; \<open>place_pair\<close> below raises \<open>KeyError\<close> there when a
  key is missing, so the default is never read.
\<close>

definition groups_of :: "ta2groups \<Rightarrow> ta \<Rightarrow> group list" where
  "groups_of ta2groups ta = (case map_of ta2groups ta of None \<Rightarrow> [] | Some gs \<Rightarrow> gs)"

definition load :: "ta2groups \<Rightarrow> ta \<Rightarrow> nat" where
  "load ta2groups ta = length (groups_of ta2groups ta)"

text \<open>\<open>ta2groups[ta].append(pair)\<close>: the entry keeps its place in the dictionary.\<close>

definition append_group :: "ta2groups \<Rightarrow> ta \<Rightarrow> group \<Rightarrow> ta2groups" where
  "append_group ta2groups ta pair =
     map (\<lambda>(t, gs). if t = ta then (t, gs @ [pair]) else (t, gs)) ta2groups"

text \<open>
  \<open>math.ceil(len(student_pairs)/len(tas))\<close> for a non-zero divisor. The source divides in
  floating point; for lengths below \<open>2 ^ 53\<close>, which every list in memory has, the rounded
  quotient has the same ceiling as the exact one, and that is what is computed here
  (\<open>ceil_div_ceiling\<close> below relates it to the ceiling of the real quotient).
\<close>

definition ceil_div :: "nat \<Rightarrow> nat \<Rightarrow> nat" where
  "ceil_div n m = (n + m - 1) div m"

text \<open>
  The body of \<open>for student in pair\<close> inside the filter:
  \<open>if student in history[ta] or student in blocks[ta]: if ta in options: options.remove(ta)\<close>.
  \<open>history[ta]\<close> is indexed for every student, \<open>blocks[ta]\<close> only when the student is not in
  the history; either raises \<open>KeyError\<close> on a missing key.
\<close>

fun remove_blocked :: "students_of \<Rightarrow> students_of \<Rightarrow> ta \<Rightarrow> group \<Rightarrow> ta list \<Rightarrow> error + ta list" where
  "remove_blocked history blocks ta [] options = Inr options"
| "remove_blocked history blocks ta (student # pair) options =
     (case history ta of
        None \<Rightarrow> Inl KeyError
      | Some h \<Rightarrow>
          if student \<in> h
          then remove_blocked history blocks ta pair
                 (if ta \<in> set options then remove1 ta options else options)
          else (case blocks ta of
                  None \<Rightarrow> Inl KeyError
                | Some b \<Rightarrow>
                    if student \<in> b
                    then remove_blocked history blocks ta pair
                           (if ta \<in> set options then remove1 ta options else options)
                    else remove_blocked history blocks ta pair options))"

lemma remove_blocked_length:
  "remove_blocked history blocks ta pair options = Inr options' \<Longrightarrow>
   length options' \<le> length options"
proof (induction pair arbitrary: options)
  case Nil
  then show ?case by simp
next
  case (Cons student pair)
  have shorter: "length (if ta \<in> set options then remove1 ta options else options) \<le> length options"
    by (simp add: length_remove1)
  from Cons.prems show ?case
    using Cons.IH [of options] Cons.IH [of "if ta \<in> set options then remove1 ta options else options"]
      shorter
    by (auto split: option.splits if_splits)
qed

text \<open>
  \<open>for ta in options:\<close> over the list that the body shortens. Python's list iterator keeps
  an index \<open>i\<close>: each round it stops when \<open>i\<close> has reached the current length, and otherwise
  yields \<open>options[i]\<close> and advances. After a removal at position \<open>i\<close> the next round therefore
  reads what was at position \<open>i + 2\<close>.
\<close>

function filter_options :: "students_of \<Rightarrow> students_of \<Rightarrow> group \<Rightarrow> nat \<Rightarrow> ta list \<Rightarrow> error + ta list" where
  "filter_options history blocks pair i options =
     (if i < length options
      then (case remove_blocked history blocks (options ! i) pair options of
              Inl e \<Rightarrow> Inl e
            | Inr options' \<Rightarrow> filter_options history blocks pair (Suc i) options')
      else Inr options)"
  by pat_completeness auto
termination
proof (relation "measure (\<lambda>(history, blocks, pair, i, options). length options - i)")
  show "wf (measure (\<lambda>(history :: students_of, blocks :: students_of, pair :: group, i, options :: ta list).
          length options - i))"
    by simp
next
  fix history blocks :: students_of and pair :: group and i :: nat and options options' :: "ta list"
  assume "i < length options"
    and "remove_blocked history blocks (options ! i) pair options = Inr options'"
  then show "((history, blocks, pair, Suc i, options'), (history, blocks, pair, i, options))
      \<in> measure (\<lambda>(history, blocks, pair, i, options). length options - i)"
    using remove_blocked_length [of history blocks "options ! i" pair options options'] by simp
qed

declare filter_options.simps [simp del]

text \<open>
  The placement scan
  \<open>for ta in options: if len(ta2groups[ta]) >= max_groups_per_ta: continue; ...; break\<close>:
  the TA the group is appended to, if the scan finds one.
\<close>

fun first_below :: "ta2groups \<Rightarrow> nat \<Rightarrow> ta list \<Rightarrow> ta option" where
  "first_below ta2groups max_groups_per_ta [] = None"
| "first_below ta2groups max_groups_per_ta (ta # options) =
     (if load ta2groups ta \<ge> max_groups_per_ta
      then first_below ta2groups max_groups_per_ta options
      else Some ta)"

text \<open>
  \<open>min([(len(ta2groups[t]), t) for t in options])[1]\<close>: Python compares the tuples
  lexicographically, the integers first and then the strings, themselves compared
  lexicographically by character code.
\<close>

definition smallest_option :: "ta2groups \<Rightarrow> ta list \<Rightarrow> ta" where
  "smallest_option ta2groups options = snd (min_list (map (\<lambda>t. (load ta2groups t, t)) options))"

text \<open>
  One round of \<open>for pair in student_pairs\<close>: the new \<open>ta2groups\<close> and the lines printed in
  this round. \<open>sorted\<close> is stable and evaluates its key, \<open>len(ta2groups[ta])\<close>, for every TA
  before anything else happens.
\<close>

definition place_pair ::
  "ta list \<Rightarrow> students_of \<Rightarrow> students_of \<Rightarrow> nat \<Rightarrow> group \<Rightarrow> ta2groups \<Rightarrow> error + ta2groups \<times> msg list" where
  "place_pair tas history blocks max_groups_per_ta pair ta2groups =
     (if \<not> set tas \<subseteq> fst ` set ta2groups then Inl KeyError
      else
        (case filter_options history blocks pair 0 (sort_key (load ta2groups) tas) of
           Inl e \<Rightarrow> Inl e
         | Inr options \<Rightarrow>
             if length options = 0 then Inr (ta2groups, [Conflicts_with_all pair])
             else
               (case first_below ta2groups max_groups_per_ta options of
                  Some ta \<Rightarrow> Inr (append_group ta2groups ta pair, [])
                | None \<Rightarrow>
                    Inr (append_group ta2groups (smallest_option ta2groups options) pair,
                         [Over_capacity pair]))))"

fun assign_loop ::
  "ta list \<Rightarrow> students_of \<Rightarrow> students_of \<Rightarrow> nat \<Rightarrow> group list \<Rightarrow> ta2groups \<times> msg list
   \<Rightarrow> error + ta2groups \<times> msg list" where
  "assign_loop tas history blocks max_groups_per_ta [] state = Inr state"
| "assign_loop tas history blocks max_groups_per_ta (pair # student_pairs) state =
     (case place_pair tas history blocks max_groups_per_ta pair (fst state) of
        Inl e \<Rightarrow> Inl e
      | Inr (ta2groups, printed) \<Rightarrow>
          assign_loop tas history blocks max_groups_per_ta student_pairs
            (ta2groups, snd state @ printed))"

text \<open>
  \<open>assign_project\<close>: the division raises for an empty \<open>tas\<close>; the final \<open>assert\<close> raises when
  the conflict checker finds a conflict. The result is the returned \<open>ta2groups\<close> and the
  diagnostic lines printed on the way.
\<close>

definition assign_project ::
  "ta list \<Rightarrow> group list \<Rightarrow> students_of \<Rightarrow> students_of \<Rightarrow> error + ta2groups \<times> msg list" where
  "assign_project tas student_pairs history blocks =
     (if length tas = 0 then Inl ZeroDivisionError
      else
        (case assign_loop tas history blocks (ceil_div (length student_pairs) (length tas))
                student_pairs (init_ta2groups tas, []) of
           Inl e \<Rightarrow> Inl e
         | Inr (ta2groups, printed) \<Rightarrow>
             (case project_conflicts ta2groups blocks of
                (found_conflict, conflicts) \<Rightarrow>
                  if found_conflict then Inl AssertionError
                  else Inr (ta2groups, printed @ conflicts))))"

subsection \<open>The history updater\<close>

text \<open>
  The three nested loops of \<open>update_project_history\<close>, innermost first:
  \<open>curr_history[ta].add(student)\<close> raises \<open>KeyError\<close> when the TA has no entry. The sets in
  \<open>curr_history\<close> are separate objects (the loader builds one per key), so adding to one
  entry changes no other and the dictionary is a map of values. The branch that writes the
  JSON file is taken only when \<open>fname\<close> is given and does not change the result.
\<close>

fun add_pair :: "ta \<Rightarrow> group \<Rightarrow> students_of \<Rightarrow> error + students_of" where
  "add_pair ta [] curr_history = Inr curr_history"
| "add_pair ta (student # pair) curr_history =
     (case curr_history ta of
        None \<Rightarrow> Inl KeyError
      | Some h \<Rightarrow> add_pair ta pair (curr_history(ta \<mapsto> insert student h)))"

fun add_groups :: "ta \<Rightarrow> group list \<Rightarrow> students_of \<Rightarrow> error + students_of" where
  "add_groups ta [] curr_history = Inr curr_history"
| "add_groups ta (pair # groups) curr_history =
     (case add_pair ta pair curr_history of
        Inl e \<Rightarrow> Inl e
      | Inr curr_history' \<Rightarrow> add_groups ta groups curr_history')"

fun add_items :: "ta2groups \<Rightarrow> students_of \<Rightarrow> error + students_of" where
  "add_items [] curr_history = Inr curr_history"
| "add_items ((ta, groups) # items) curr_history =
     (case add_groups ta groups curr_history of
        Inl e \<Rightarrow> Inl e
      | Inr curr_history' \<Rightarrow> add_items items curr_history')"

definition update_project_history :: "students_of \<Rightarrow> ta2groups \<Rightarrow> error + students_of" where
  "update_project_history curr_history curr_groups = add_items curr_groups curr_history"

subsection \<open>Notions used in the proofs\<close>

text \<open>
  These are not functions of the source. \<open>assigned_students\<close> collects every student of
  every group listed under a TA; \<open>merged\<close> adds a set of students to every entry of a
  history; \<open>recordable\<close> says that every TA with a student to record has a history entry.
\<close>

definition assigned_students :: "ta2groups \<Rightarrow> ta \<Rightarrow> student set" where
  "assigned_students curr_groups ta =
     {student. \<exists>groups pair. (ta, groups) \<in> set curr_groups \<and> pair \<in> set groups \<and> student \<in> set pair}"

definition merged :: "students_of \<Rightarrow> (ta \<Rightarrow> student set) \<Rightarrow> students_of" where
  "merged curr_history added = (\<lambda>ta. map_option (\<lambda>h. h \<union> added ta) (curr_history ta))"

definition recordable :: "students_of \<Rightarrow> ta2groups \<Rightarrow> bool" where
  "recordable curr_history curr_groups \<longleftrightarrow>
     (\<forall>(ta, groups)\<in>set curr_groups. curr_history ta = None \<longrightarrow> (\<forall>pair\<in>set groups. pair = []))"

section \<open>Properties\<close>

subsection \<open>The conflict checker\<close>

lemma find_conflict_iff:
  "find_conflict ta student blocks \<noteq> None \<longleftrightarrow> (\<exists>b. blocks ta = Some b \<and> student \<in> b)"
  by (simp add: find_conflict_def split: option.splits)

lemma conflicts_in_pair_fst:
  "fst (conflicts_in_pair ta blocks pair acc) \<longleftrightarrow>
     fst acc \<or> (\<exists>student\<in>set pair. find_conflict ta student blocks \<noteq> None)"
  by (induction pair arbitrary: acc) (auto split: option.splits)

lemma conflicts_in_groups_fst:
  "fst (conflicts_in_groups ta blocks groups acc) \<longleftrightarrow>
     fst acc \<or> (\<exists>pair\<in>set groups. \<exists>student\<in>set pair. find_conflict ta student blocks \<noteq> None)"
  by (induction groups arbitrary: acc) (auto simp: conflicts_in_pair_fst)

lemma conflicts_in_items_fst:
  "fst (conflicts_in_items blocks items acc) \<longleftrightarrow>
     fst acc \<or> (\<exists>(ta, groups)\<in>set items. \<exists>pair\<in>set groups. \<exists>student\<in>set pair.
        find_conflict ta student blocks \<noteq> None)"
proof (induction items arbitrary: acc)
  case Nil
  then show ?case by simp
next
  case (Cons item items)
  obtain ta groups where item: "item = (ta, groups)" by (cases item)
  show ?case
    by (simp add: item Cons.IH conflicts_in_groups_fst disj_assoc)
qed

lemma project_conflicts_fst:
  "fst (project_conflicts ta2groups blocks) \<longleftrightarrow>
     (\<exists>ta groups pair student b. (ta, groups) \<in> set ta2groups \<and> pair \<in> set groups \<and>
        student \<in> set pair \<and> blocks ta = Some b \<and> student \<in> b)"
proof -
  have "fst (project_conflicts ta2groups blocks) \<longleftrightarrow>
     (\<exists>(ta, groups)\<in>set ta2groups. \<exists>pair\<in>set groups. \<exists>student\<in>set pair.
        find_conflict ta student blocks \<noteq> None)"
    by (simp add: project_conflicts_def conflicts_in_items_fst)
  also have "\<dots> \<longleftrightarrow> (\<exists>ta groups pair student b. (ta, groups) \<in> set ta2groups \<and> pair \<in> set groups \<and>
        student \<in> set pair \<and> blocks ta = Some b \<and> student \<in> b)"
    unfolding find_conflict_iff by fastforce
  finally show ?thesis .
qed

text \<open>
  C3. The conflict checker is a total function into the booleans (with the lines it
  prints), and its flag is true exactly when some TA of the allocation has a group with a
  student who is in that TA's block set. What \<open>find_conflict\<close> decides is taken from the
  specification.
\<close>

theorem project_conflicts_correct:
  "fst (project_conflicts ta2groups blocks) \<longleftrightarrow>
     (\<exists>ta groups pair student b. (ta, groups) \<in> set ta2groups \<and> pair \<in> set groups \<and>
        student \<in> set pair \<and> blocks ta = Some b \<and> student \<in> b)"
  by (rule project_conflicts_fst)

subsection \<open>What the final assertion guarantees\<close>

lemma assign_project_Inr:
  assumes "assign_project tas student_pairs history blocks = Inr (ta2groups, printed)"
  shows "\<not> fst (project_conflicts ta2groups blocks)"
  using assms
  by (auto simp: assign_project_def split: if_splits sum.splits prod.splits)

text \<open>
  C1. In every allocation that \<open>assign_project\<close> returns, no student of a group listed under
  a TA is in that TA's block set. This is the work of the closing assertion: an allocation
  with such a student is not returned, the call raises \<open>AssertionError\<close> instead.
\<close>

theorem assign_project_no_block_conflict:
  assumes "assign_project tas student_pairs history blocks = Inr (ta2groups, printed)"
    and "(ta, groups) \<in> set ta2groups" and "pair \<in> set groups" and "student \<in> set pair"
    and "blocks ta = Some b"
  shows "student \<notin> b"
  using assign_project_Inr [OF assms(1)] assms(2-) unfolding project_conflicts_fst by blast

theorem assign_project_no_block_conflict_witness:
  "assign_project [''X'', ''Y''] [[''s1'', ''s2''], [''s3''], [''s4'', ''s5'']]
       [''X'' \<mapsto> {}, ''Y'' \<mapsto> {}] [''X'' \<mapsto> {''s3''}, ''Y'' \<mapsto> {}]
     = Inr ([(''X'', [[''s1'', ''s2''], [''s4'', ''s5'']]), (''Y'', [[''s3'']])], [])
   \<and> ''s1'' \<notin> {''s3''}"
proof -
  let ?blocks = "[''X'' \<mapsto> {''s3''}, ''Y'' \<mapsto> {}]"
  have run: "assign_project [''X'', ''Y''] [[''s1'', ''s2''], [''s3''], [''s4'', ''s5'']]
       [''X'' \<mapsto> {}, ''Y'' \<mapsto> {}] ?blocks
     = Inr ([(''X'', [[''s1'', ''s2''], [''s4'', ''s5'']]), (''Y'', [[''s3'']])], [])"
    by code_simp
  have "''s1'' \<notin> {''s3''}"
    by (rule assign_project_no_block_conflict [OF run, of "''X''"
          "[[''s1'', ''s2''], [''s4'', ''s5'']]" "[''s1'', ''s2'']"]) simp_all
  with run show ?thesis by simp
qed

subsection \<open>The filter skips the candidate after a removed one\<close>

text \<open>
  C2 (the source at a failing input). Both TAs have had student \<open>s1\<close> before and nobody is
  blocked. The filter removes the first candidate and, the list having shrunk under the
  iterator, never looks at the second; the group is given to that second TA, whichever of the
  two orders the set of TAs is enumerated in, and the allocation is returned.
\<close>

theorem assign_project_repeats_history:
  "assign_project [''X'', ''Y''] [[''s1'']] [''X'' \<mapsto> {''s1''}, ''Y'' \<mapsto> {''s1''}]
      [''X'' \<mapsto> {}, ''Y'' \<mapsto> {}] = Inr ([(''X'', []), (''Y'', [[''s1'']])], [])
   \<and> assign_project [''Y'', ''X''] [[''s1'']] [''X'' \<mapsto> {''s1''}, ''Y'' \<mapsto> {''s1''}]
      [''X'' \<mapsto> {}, ''Y'' \<mapsto> {}] = Inr ([(''Y'', []), (''X'', [[''s1'']])], [])"
  by code_simp

text \<open>
  C4 (the source on Scenario B). Both TAs block \<open>s1\<close>. For the same reason the second
  candidate survives the filter and receives the group; the closing assertion then finds the
  conflict and the call raises \<open>AssertionError\<close>: nothing is reported unplaceable and no
  allocation is returned. That is with a history that has an empty set for each TA, as the
  loader builds it; with a history that has no entries at all the filter raises \<open>KeyError\<close>
  at its first look-up.
\<close>

theorem assign_project_scenario_B_raises:
  "assign_project [''X'', ''Y''] [[''s1'']] [''X'' \<mapsto> {}, ''Y'' \<mapsto> {}]
      [''X'' \<mapsto> {''s1''}, ''Y'' \<mapsto> {''s1''}] = Inl AssertionError
   \<and> assign_project [''Y'', ''X''] [[''s1'']] [''X'' \<mapsto> {}, ''Y'' \<mapsto> {}]
      [''X'' \<mapsto> {''s1''}, ''Y'' \<mapsto> {''s1''}] = Inl AssertionError
   \<and> assign_project [''X'', ''Y''] [[''s1'']] Map.empty
      [''X'' \<mapsto> {''s1''}, ''Y'' \<mapsto> {''s1''}] = Inl KeyError
   \<and> assign_project [''Y'', ''X''] [[''s1'']] Map.empty
      [''X'' \<mapsto> {''s1''}, ''Y'' \<mapsto> {''s1''}] = Inl KeyError"
  by code_simp

subsection \<open>An empty staff set\<close>

text \<open>
  C7 (as the source has it). With an empty staff set the allocator never returns an
  allocation: the capacity computation divides by the number of TAs and raises
  \<open>ZeroDivisionError\<close>, whatever the groups, the history and the blocks are.
\<close>

theorem assign_project_no_tas:
  "assign_project [] student_pairs history blocks = Inl ZeroDivisionError"
  by (simp add: assign_project_def)

text \<open>
  C7 (as the specification states it). The error raised for an empty staff set is not a
  \<open>ConfigurationError\<close>.
\<close>

theorem assign_project_no_tas_not_ConfigurationError:
  "assign_project [] [] Map.empty Map.empty \<noteq> Inl ConfigurationError"
  by (simp add: assign_project_def)

subsection \<open>The allocator, one group at a time\<close>

lemma ceil_div_ceiling:
  assumes "0 < m"
  shows "int (ceil_div n m) = \<lceil>real n / real m\<rceil>"
proof -
  define q where "q = ceil_div n m"
  have below: "q * m \<le> n + m - 1"
    unfolding q_def ceil_div_def by simp
  have above: "n + m - 1 < m + q * m"
    unfolding q_def ceil_div_def using dividend_less_div_times [OF assms] by simp
  from above assms have "n \<le> q * m" by linarith
  then have "real n \<le> real q * real m"
    by (metis of_nat_le_iff of_nat_mult)
  then have upper: "real n / real m \<le> real q"
    using assms by (simp add: divide_le_eq)
  from below assms have "q * m + 1 \<le> n + m" by linarith
  then have "real (q * m + 1) \<le> real (n + m)"
    by (simp only: of_nat_le_iff)
  then have "(real q - 1) * real m < real n"
    by (simp add: algebra_simps)
  then have lower: "real q - 1 < real n / real m"
    using assms by (simp add: less_divide_eq)
  have "\<lceil>real n / real m\<rceil> = int q"
    by (rule ceiling_unique) (use lower upper in simp_all)
  then show ?thesis by (simp add: q_def)
qed

lemma append_group_keys: "map fst (append_group ta2groups ta pair) = map fst ta2groups"
  by (induction ta2groups) (auto simp: append_group_def)

lemma map_of_append_group:
  "map_of (append_group ta2groups ta pair) t =
     (if t = ta then map_option (\<lambda>gs. gs @ [pair]) (map_of ta2groups t) else map_of ta2groups t)"
  by (induction ta2groups) (auto simp: append_group_def)

lemma groups_of_append_group:
  "ta \<in> fst ` set ta2groups \<Longrightarrow>
   groups_of (append_group ta2groups ta pair) t =
     (if t = ta then groups_of ta2groups t @ [pair] else groups_of ta2groups t)"
  by (auto simp: groups_of_def map_of_append_group map_of_eq_None_iff split: option.splits)

lemma set_append_group:
  "(t, gs) \<in> set (append_group ta2groups ta pair) \<Longrightarrow>
   \<exists>gs'. (t, gs') \<in> set ta2groups \<and> (gs = gs' \<or> gs = gs' @ [pair])"
  by (auto simp: append_group_def split: if_splits)

lemma remove_blocked_Cons:
  "remove_blocked history blocks ta (student # pair) options = Inr options' \<Longrightarrow>
   remove_blocked history blocks ta pair (remove1 ta options) = Inr options' \<or>
   remove_blocked history blocks ta pair options = Inr options'"
  by (auto simp: remove1_idem split: option.splits if_splits)

lemma remove_blocked_cases:
  "distinct options \<Longrightarrow> remove_blocked history blocks ta pair options = Inr options' \<Longrightarrow>
   options' = options \<or> options' = remove1 ta options"
proof (induction pair arbitrary: options)
  case Nil
  then show ?case by simp
next
  case (Cons student pair)
  have idem: "remove1 ta (remove1 ta options) = remove1 ta options"
    using Cons.prems(1) by (simp add: remove1_idem)
  from remove_blocked_Cons [OF Cons.prems(2)] show ?case
  proof
    assume "remove_blocked history blocks ta pair (remove1 ta options) = Inr options'"
    with Cons.IH [of "remove1 ta options"] Cons.prems(1) idem show ?thesis by auto
  next
    assume "remove_blocked history blocks ta pair options = Inr options'"
    with Cons.IH [of options] Cons.prems(1) show ?thesis by simp
  qed
qed

lemma remove_blocked_subset:
  "remove_blocked history blocks ta pair options = Inr options' \<Longrightarrow> set options' \<subseteq> set options"
proof (induction pair arbitrary: options)
  case Nil
  then show ?case by simp
next
  case (Cons student pair)
  from remove_blocked_Cons [OF Cons.prems] show ?case
  proof
    assume "remove_blocked history blocks ta pair (remove1 ta options) = Inr options'"
    from Cons.IH [OF this] set_remove1_subset [of ta options] show ?thesis by blast
  next
    assume "remove_blocked history blocks ta pair options = Inr options'"
    from Cons.IH [OF this] show ?thesis .
  qed
qed

lemma remove_blocked_sorted:
  "remove_blocked history blocks ta pair options = Inr options' \<Longrightarrow>
   sorted (map f options) \<Longrightarrow> sorted (map f options')"
proof (induction pair arbitrary: options)
  case Nil
  then show ?case by simp
next
  case (Cons student pair)
  from remove_blocked_Cons [OF Cons.prems(1)] show ?case
  proof
    assume "remove_blocked history blocks ta pair (remove1 ta options) = Inr options'"
    from Cons.IH [OF this] Cons.prems(2) show ?thesis by (simp add: sorted_map_remove1)
  next
    assume "remove_blocked history blocks ta pair options = Inr options'"
    from Cons.IH [OF this] Cons.prems(2) show ?thesis .
  qed
qed

lemma remove_blocked_distinct:
  "remove_blocked history blocks ta pair options = Inr options' \<Longrightarrow>
   distinct options \<Longrightarrow> distinct options'"
proof (induction pair arbitrary: options)
  case Nil
  then show ?case by simp
next
  case (Cons student pair)
  from remove_blocked_Cons [OF Cons.prems(1)] show ?case
  proof
    assume "remove_blocked history blocks ta pair (remove1 ta options) = Inr options'"
    from Cons.IH [OF this] Cons.prems(2) show ?thesis by simp
  next
    assume "remove_blocked history blocks ta pair options = Inr options'"
    from Cons.IH [OF this] Cons.prems(2) show ?thesis .
  qed
qed

lemma filter_options_subset_sorted:
  "filter_options history blocks pair i options = Inr result \<Longrightarrow>
   set result \<subseteq> set options \<and> (sorted (map f options) \<longrightarrow> sorted (map f result))
     \<and> (distinct options \<longrightarrow> distinct result)"
proof (induction history blocks pair i options rule: filter_options.induct)
  case (1 history blocks pair i options)
  show ?case
  proof (cases "i < length options")
    case False
    with "1.prems" show ?thesis by (simp add: filter_options.simps [of _ _ _ i options])
  next
    case True
    with "1.prems" obtain options' where
      rb: "remove_blocked history blocks (options ! i) pair options = Inr options'"
      and rest: "filter_options history blocks pair (Suc i) options' = Inr result"
      by (auto simp: filter_options.simps [of _ _ _ i options] split: sum.splits)
    from "1.IH" [OF True rb rest]
      remove_blocked_subset [OF rb] remove_blocked_sorted [OF rb, of f]
      remove_blocked_distinct [OF rb]
    show ?thesis by blast
  qed
qed

lemma first_below_Some:
  "first_below ta2groups cap options = Some ta \<Longrightarrow>
   \<exists>before after. options = before @ ta # after \<and>
      (\<forall>t\<in>set before. cap \<le> load ta2groups t) \<and> load ta2groups ta < cap"
proof (induction options)
  case Nil
  then show ?case by simp
next
  case (Cons t options)
  show ?case
  proof (cases "cap \<le> load ta2groups t")
    case True
    with Cons.prems have "first_below ta2groups cap options = Some ta" by simp
    from Cons.IH [OF this] obtain before after where
      "options = before @ ta # after" "\<forall>t\<in>set before. cap \<le> load ta2groups t"
      "load ta2groups ta < cap"
      by blast
    with True have "t # options = (t # before) @ ta # after \<and>
        (\<forall>u\<in>set (t # before). cap \<le> load ta2groups u) \<and> load ta2groups ta < cap"
      by simp
    then show ?thesis by blast
  next
    case False
    with Cons.prems have "ta = t" by simp
    with False have "t # options = [] @ ta # options \<and>
        (\<forall>u\<in>set []. cap \<le> load ta2groups u) \<and> load ta2groups ta < cap"
      by simp
    then show ?thesis by blast
  qed
qed

lemma first_below_None:
  "first_below ta2groups cap options = None \<longleftrightarrow> (\<forall>t\<in>set options. cap \<le> load ta2groups t)"
  by (induction options) auto

lemma smallest_option_least:
  assumes "options \<noteq> []"
  shows "smallest_option ta2groups options \<in> set options"
    and "\<forall>t\<in>set options. (load ta2groups (smallest_option ta2groups options), smallest_option ta2groups options)
            \<le> (load ta2groups t, t)"
proof -
  let ?keyed = "map (\<lambda>t. (load ta2groups t, t)) options"
  from assms have ne: "?keyed \<noteq> []" by simp
  have m: "min_list ?keyed = Min (set ?keyed)"
    using ne by (rule min_list_Min)
  have "Min (set ?keyed) \<in> set ?keyed"
    using ne by (intro Min_in) simp_all
  then obtain t where t: "t \<in> set options" "Min (set ?keyed) = (load ta2groups t, t)"
    by auto
  then have s: "smallest_option ta2groups options = t"
    by (simp add: smallest_option_def m)
  show "smallest_option ta2groups options \<in> set options" using s t by simp
  show "\<forall>t\<in>set options. (load ta2groups (smallest_option ta2groups options), smallest_option ta2groups options)
            \<le> (load ta2groups t, t)"
  proof
    fix u assume "u \<in> set options"
    then have "Min (set ?keyed) \<le> (load ta2groups u, u)"
      by (intro Min_le) auto
    then show "(load ta2groups (smallest_option ta2groups options), smallest_option ta2groups options)
            \<le> (load ta2groups u, u)"
      unfolding s t(2) .
  qed
qed

subsection \<open>The allocator, over a run\<close>

lemma place_pair_keys:
  "place_pair tas history blocks cap pair ta2groups = Inr (ta2groups', msgs) \<Longrightarrow>
   map fst ta2groups' = map fst ta2groups"
  by (auto simp: place_pair_def append_group_keys split: if_splits sum.splits option.splits)

lemma assign_loop_keys:
  "assign_loop tas history blocks cap student_pairs state = Inr state' \<Longrightarrow>
   map fst (fst state') = map fst (fst state)"
proof (induction student_pairs arbitrary: state)
  case Nil
  then show ?case by simp
next
  case (Cons pair student_pairs)
  from Cons.prems obtain ta2groups msgs where
    step: "place_pair tas history blocks cap pair (fst state) = Inr (ta2groups, msgs)"
    and rest: "assign_loop tas history blocks cap student_pairs (ta2groups, snd state @ msgs) = Inr state'"
    by (auto split: sum.splits)
  from Cons.IH [OF rest] place_pair_keys [OF step] show ?case by simp
qed

lemma assign_loop_append:
  "assign_loop tas history blocks cap (pre @ post) state =
     (case assign_loop tas history blocks cap pre state of
        Inl e \<Rightarrow> Inl e
      | Inr state' \<Rightarrow> assign_loop tas history blocks cap post state')"
  by (induction pre arbitrary: state) (auto split: sum.splits)

lemma reached_keys:
  assumes "assign_loop tas history blocks cap pre (init_ta2groups tas, []) = Inr (ta2groups, printed)"
  shows "map fst ta2groups = tas"
  using assign_loop_keys [OF assms] by (simp add: init_ta2groups_def comp_def)

lemma options_facts:
  assumes "filter_options history blocks pair 0 (sort_key (load ta2groups) tas) = Inr options"
  shows "set options \<subseteq> set tas" and "sorted (map (load ta2groups) options)"
  using filter_options_subset_sorted [OF assms, of "load ta2groups"] by simp_all

text \<open>
  C5. Take any run of the allocator and any group \<open>pair\<close> of its list, with \<open>ta2groups\<close> the
  allocation reached when the groups before it have been processed, and suppose some
  candidate survives the filter. The capacity is the ceiling of the number of groups over the
  number of TAs. The surviving candidates \<open>options\<close> are in ascending order of their current
  number of groups. The group is appended to the list of one of them, \<open>ta\<close>, and to no other
  list: when some candidate is below capacity, \<open>ta\<close> is the first such in the scan (everyone
  before it is at or above capacity); when all are at or above capacity, \<open>ta\<close> has the
  smallest current load among them. In both cases the loop goes on with the remaining groups.
\<close>

theorem place_pair_capacity:
  assumes run: "assign_loop tas history blocks (ceil_div (length student_pairs) (length tas)) pre
                  (init_ta2groups tas, []) = Inr (ta2groups, printed)"
    and pairs: "student_pairs = pre @ pair # post"
    and opts: "filter_options history blocks pair 0 (sort_key (load ta2groups) tas) = Inr options"
    and ne: "options \<noteq> []"
  shows "\<exists>cap ta before after msgs.
      cap = ceil_div (length student_pairs) (length tas) \<and>
      int cap = \<lceil>real (length student_pairs) / real (length tas)\<rceil> \<and>
      sorted (map (load ta2groups) options) \<and>
      options = before @ ta # after \<and>
      ((\<exists>t\<in>set options. load ta2groups t < cap) \<longrightarrow>
         (\<forall>t\<in>set before. cap \<le> load ta2groups t) \<and> load ta2groups ta < cap) \<and>
      ((\<forall>t\<in>set options. cap \<le> load ta2groups t) \<longrightarrow>
         (\<forall>t\<in>set options. load ta2groups ta \<le> load ta2groups t)) \<and>
      place_pair tas history blocks cap pair ta2groups = Inr (append_group ta2groups ta pair, msgs) \<and>
      groups_of (append_group ta2groups ta pair) ta = groups_of ta2groups ta @ [pair] \<and>
      (\<forall>t. t \<noteq> ta \<longrightarrow> groups_of (append_group ta2groups ta pair) t = groups_of ta2groups t) \<and>
      assign_loop tas history blocks cap student_pairs (init_ta2groups tas, []) =
        assign_loop tas history blocks cap post (append_group ta2groups ta pair, printed @ msgs)"
proof -
  define cap where "cap = ceil_div (length student_pairs) (length tas)"
  have keys: "map fst ta2groups = tas" using run by (rule reached_keys)
  then have guard: "set tas \<subseteq> fst ` set ta2groups" by (metis set_map subset_refl)
  have sub: "set options \<subseteq> set tas" and srt: "sorted (map (load ta2groups) options)"
    using options_facts [OF opts] by simp_all
  from ne sub have "tas \<noteq> []" by auto
  then have ceil: "int cap = \<lceil>real (length student_pairs) / real (length tas)\<rceil>"
    unfolding cap_def by (intro ceil_div_ceiling) simp
  have step: "place_pair tas history blocks cap pair ta2groups =
      (case first_below ta2groups cap options of
         Some ta \<Rightarrow> Inr (append_group ta2groups ta pair, [])
       | None \<Rightarrow> Inr (append_group ta2groups (smallest_option ta2groups options) pair,
                       [Over_capacity pair]))"
    using guard opts ne by (simp add: place_pair_def)
  have whole: "assign_loop tas history blocks cap student_pairs (init_ta2groups tas, []) =
      assign_loop tas history blocks cap post (append_group ta2groups ta pair, printed @ msgs)"
    if "place_pair tas history blocks cap pair ta2groups = Inr (append_group ta2groups ta pair, msgs)"
    for ta msgs
    using run that by (simp add: pairs assign_loop_append cap_def)
  have grown: "groups_of (append_group ta2groups ta pair) ta = groups_of ta2groups ta @ [pair] \<and>
      (\<forall>t. t \<noteq> ta \<longrightarrow> groups_of (append_group ta2groups ta pair) t = groups_of ta2groups t)"
    if "ta \<in> set options" for ta
  proof -
    from that sub guard have "ta \<in> fst ` set ta2groups" by blast
    then show ?thesis by (simp add: groups_of_append_group)
  qed
  show ?thesis
  proof (cases "first_below ta2groups cap options")
    case (Some ta)
    from first_below_Some [OF Some] obtain before after where
      split: "options = before @ ta # after"
      and before: "\<forall>t\<in>set before. cap \<le> load ta2groups t"
      and below: "load ta2groups ta < cap"
      by blast
    have placed: "place_pair tas history blocks cap pair ta2groups
        = Inr (append_group ta2groups ta pair, [])"
      using step Some by simp
    have "ta \<in> set options" using split by simp
    with below have not_all: "\<not> (\<forall>t\<in>set options. cap \<le> load ta2groups t)"
      by (auto simp: not_le)
    from ceil srt split before below not_all placed grown [OF \<open>ta \<in> set options\<close>] whole [OF placed]
    show ?thesis unfolding cap_def [symmetric] by blast
  next
    case None
    let ?ta = "smallest_option ta2groups options"
    have all: "\<forall>t\<in>set options. cap \<le> load ta2groups t"
      using None by (simp add: first_below_None)
    have mem: "?ta \<in> set options"
      and least: "\<forall>t\<in>set options. (load ta2groups ?ta, ?ta) \<le> (load ta2groups t, t)"
      using smallest_option_least [OF ne] by blast+
    from mem obtain before after where split: "options = before @ ?ta # after"
      by (auto simp: in_set_conv_decomp)
    have minimal: "\<forall>t\<in>set options. load ta2groups ?ta \<le> load ta2groups t"
      using least by auto
    have none_below: "\<not> (\<exists>t\<in>set options. load ta2groups t < cap)"
      using all by (auto simp: not_less)
    have placed: "place_pair tas history blocks cap pair ta2groups
        = Inr (append_group ta2groups ?ta pair, [Over_capacity pair])"
      using step None by simp
    from ceil srt split minimal none_below placed grown [OF mem] whole [OF placed]
    show ?thesis unfolding cap_def [symmetric] by blast
  qed
qed

theorem place_pair_capacity_witness:
  "assign_loop [''X'', ''Y''] [''X'' \<mapsto> {}, ''Y'' \<mapsto> {}] [''X'' \<mapsto> {}, ''Y'' \<mapsto> {}]
      (ceil_div (length [[''s1'', ''s2''], [''s3''], [''s4'', ''s5'']]) (length [''X'', ''Y'']))
      [[''s1'', ''s2'']] (init_ta2groups [''X'', ''Y''], [])
     = Inr ([(''X'', [[''s1'', ''s2'']]), (''Y'', [])], [])
   \<and> filter_options [''X'' \<mapsto> {}, ''Y'' \<mapsto> {}] [''X'' \<mapsto> {}, ''Y'' \<mapsto> {}] [''s3''] 0
        (sort_key (load [(''X'', [[''s1'', ''s2'']]), (''Y'', [])]) [''X'', ''Y''])
     = Inr [''Y'', ''X'']
   \<and> (\<exists>ta msgs.
        place_pair [''X'', ''Y''] [''X'' \<mapsto> {}, ''Y'' \<mapsto> {}] [''X'' \<mapsto> {}, ''Y'' \<mapsto> {}]
          (ceil_div (length [[''s1'', ''s2''], [''s3''], [''s4'', ''s5'']]) (length [''X'', ''Y'']))
          [''s3''] [(''X'', [[''s1'', ''s2'']]), (''Y'', [])]
        = Inr (append_group [(''X'', [[''s1'', ''s2'']]), (''Y'', [])] ta [''s3''], msgs)
        \<and> load [(''X'', [[''s1'', ''s2'']]), (''Y'', [])] ta
            < ceil_div (length [[''s1'', ''s2''], [''s3''], [''s4'', ''s5'']]) (length [''X'', ''Y'']))"
proof -
  let ?h = "[''X'' \<mapsto> {}, ''Y'' \<mapsto> {}] :: students_of"
  let ?pairs = "[[''s1'', ''s2''], [''s3''], [''s4'', ''s5'']]"
  let ?st = "[(''X'', [[''s1'', ''s2'']]), (''Y'', [])]"
  have run: "assign_loop [''X'', ''Y''] ?h ?h (ceil_div (length ?pairs) (length [''X'', ''Y'']))
      [[''s1'', ''s2'']] (init_ta2groups [''X'', ''Y''], []) = Inr (?st, [])"
    by code_simp
  have pairs: "?pairs = [[''s1'', ''s2'']] @ [''s3''] # [[''s4'', ''s5'']]"
    by simp
  have opts: "filter_options ?h ?h [''s3''] 0 (sort_key (load ?st) [''X'', ''Y'']) = Inr [''Y'', ''X'']"
    by code_simp
  have ne: "[''Y'', ''X''] \<noteq> []"
    by simp
  have below: "\<exists>t\<in>set [''Y'', ''X'']. load ?st t < ceil_div (length ?pairs) (length [''X'', ''Y''])"
    by code_simp
  from place_pair_capacity [OF run pairs opts ne] below
  have "\<exists>ta msgs.
        place_pair [''X'', ''Y''] ?h ?h (ceil_div (length ?pairs) (length [''X'', ''Y'']))
          [''s3''] ?st = Inr (append_group ?st ta [''s3''], msgs)
        \<and> load ?st ta < ceil_div (length ?pairs) (length [''X'', ''Y''])"
    by blast
  with run opts show ?thesis by blast
qed

text \<open>
  C10. In the same situation, when every surviving candidate is at or above capacity, the
  group goes to a candidate of minimal current load, and that candidate's login is the
  smallest, in the lexicographic order of strings by character code, among the candidates of
  that load; the line about the capacity being exceeded is printed.
\<close>

theorem place_pair_over_capacity:
  assumes run: "assign_loop tas history blocks (ceil_div (length student_pairs) (length tas)) pre
                  (init_ta2groups tas, []) = Inr (ta2groups, printed)"
    and pairs: "student_pairs = pre @ pair # post"
    and opts: "filter_options history blocks pair 0 (sort_key (load ta2groups) tas) = Inr options"
    and ne: "options \<noteq> []"
    and full: "\<forall>t\<in>set options. ceil_div (length student_pairs) (length tas) \<le> load ta2groups t"
  shows "\<exists>ta\<in>set options.
      place_pair tas history blocks (ceil_div (length student_pairs) (length tas)) pair ta2groups
        = Inr (append_group ta2groups ta pair, [Over_capacity pair]) \<and>
      (\<forall>t\<in>set options. load ta2groups ta \<le> load ta2groups t) \<and>
      (\<forall>t\<in>set options. load ta2groups t = load ta2groups ta \<longrightarrow>
          ta = t \<or> (ta, t) \<in> lexord {(c, d). (of_char c :: nat) < of_char d})"
proof -
  let ?cap = "ceil_div (length student_pairs) (length tas)"
  let ?ta = "smallest_option ta2groups options"
  have keys: "map fst ta2groups = tas" using run by (rule reached_keys)
  then have guard: "set tas \<subseteq> fst ` set ta2groups" by (metis set_map subset_refl)
  have none: "first_below ta2groups ?cap options = None"
    using full by (simp add: first_below_None)
  have placed: "place_pair tas history blocks ?cap pair ta2groups
      = Inr (append_group ta2groups ?ta pair, [Over_capacity pair])"
    using guard opts ne none by (simp add: place_pair_def)
  have mem: "?ta \<in> set options"
    and least: "\<forall>t\<in>set options. (load ta2groups ?ta, ?ta) \<le> (load ta2groups t, t)"
    using smallest_option_least [OF ne] by blast+
  have minimal: "\<forall>t\<in>set options. load ta2groups ?ta \<le> load ta2groups t"
    using least by auto
  have tie: "\<forall>t\<in>set options. load ta2groups t = load ta2groups ?ta \<longrightarrow>
      ?ta = t \<or> (?ta, t) \<in> lexord {(c, d). (of_char c :: nat) < of_char d}"
  proof (intro ballI impI)
    fix t assume "t \<in> set options" and "load ta2groups t = load ta2groups ?ta"
    with least have "?ta \<le> t" by auto
    then show "?ta = t \<or> (?ta, t) \<in> lexord {(c, d). (of_char c :: nat) < of_char d}"
      by (auto simp: list_le_def list_less_def less_char_def)
  qed
  from mem placed minimal tie show ?thesis by blast
qed

theorem place_pair_over_capacity_witness:
  "assign_loop [''B'', ''A'', ''C''] [''A'' \<mapsto> {}, ''B'' \<mapsto> {}, ''C'' \<mapsto> {}]
      [''A'' \<mapsto> {}, ''B'' \<mapsto> {}, ''C'' \<mapsto> {''s1'', ''s2'', ''s3'', ''s4'', ''s5''}]
      (ceil_div (length [[''s1''], [''s2''], [''s3''], [''s4''], [''s5'']]) (length [''B'', ''A'', ''C'']))
      [[''s1''], [''s2''], [''s3''], [''s4'']] (init_ta2groups [''B'', ''A'', ''C''], [])
     = Inr ([(''B'', [[''s1''], [''s3'']]), (''A'', [[''s2''], [''s4'']]), (''C'', [])], [])
   \<and> filter_options [''A'' \<mapsto> {}, ''B'' \<mapsto> {}, ''C'' \<mapsto> {}]
        [''A'' \<mapsto> {}, ''B'' \<mapsto> {}, ''C'' \<mapsto> {''s1'', ''s2'', ''s3'', ''s4'', ''s5''}] [''s5''] 0
        (sort_key (load [(''B'', [[''s1''], [''s3'']]), (''A'', [[''s2''], [''s4'']]), (''C'', [])])
           [''B'', ''A'', ''C''])
     = Inr [''B'', ''A'']
   \<and> (\<exists>ta\<in>set [''B'', ''A''].
        place_pair [''B'', ''A'', ''C''] [''A'' \<mapsto> {}, ''B'' \<mapsto> {}, ''C'' \<mapsto> {}]
          [''A'' \<mapsto> {}, ''B'' \<mapsto> {}, ''C'' \<mapsto> {''s1'', ''s2'', ''s3'', ''s4'', ''s5''}]
          (ceil_div (length [[''s1''], [''s2''], [''s3''], [''s4''], [''s5'']]) (length [''B'', ''A'', ''C'']))
          [''s5''] [(''B'', [[''s1''], [''s3'']]), (''A'', [[''s2''], [''s4'']]), (''C'', [])]
        = Inr (append_group [(''B'', [[''s1''], [''s3'']]), (''A'', [[''s2''], [''s4'']]), (''C'', [])]
                 ta [''s5''], [Over_capacity [''s5'']]))
   \<and> place_pair [''B'', ''A'', ''C''] [''A'' \<mapsto> {}, ''B'' \<mapsto> {}, ''C'' \<mapsto> {}]
          [''A'' \<mapsto> {}, ''B'' \<mapsto> {}, ''C'' \<mapsto> {''s1'', ''s2'', ''s3'', ''s4'', ''s5''}]
          (ceil_div (length [[''s1''], [''s2''], [''s3''], [''s4''], [''s5'']]) (length [''B'', ''A'', ''C'']))
          [''s5''] [(''B'', [[''s1''], [''s3'']]), (''A'', [[''s2''], [''s4'']]), (''C'', [])]
        = Inr ([(''B'', [[''s1''], [''s3'']]), (''A'', [[''s2''], [''s4''], [''s5'']]), (''C'', [])],
               [Over_capacity [''s5'']])"
proof -
  let ?h = "[''A'' \<mapsto> {}, ''B'' \<mapsto> {}, ''C'' \<mapsto> {}] :: students_of"
  let ?b = "[''A'' \<mapsto> {}, ''B'' \<mapsto> {}, ''C'' \<mapsto> {''s1'', ''s2'', ''s3'', ''s4'', ''s5''}]"
  let ?tas = "[''B'', ''A'', ''C'']"
  let ?pairs = "[[''s1''], [''s2''], [''s3''], [''s4''], [''s5'']]"
  let ?st = "[(''B'', [[''s1''], [''s3'']]), (''A'', [[''s2''], [''s4'']]), (''C'', [])]"
  have run: "assign_loop ?tas ?h ?b (ceil_div (length ?pairs) (length ?tas))
      [[''s1''], [''s2''], [''s3''], [''s4'']] (init_ta2groups ?tas, []) = Inr (?st, [])"
    by code_simp
  have pairs: "?pairs = [[''s1''], [''s2''], [''s3''], [''s4'']] @ [''s5''] # []"
    by simp
  have opts: "filter_options ?h ?b [''s5''] 0 (sort_key (load ?st) ?tas) = Inr [''B'', ''A'']"
    by code_simp
  have ne: "[''B'', ''A''] \<noteq> []"
    by simp
  have full: "\<forall>t\<in>set [''B'', ''A'']. ceil_div (length ?pairs) (length ?tas) \<le> load ?st t"
    by code_simp
  have placed: "place_pair ?tas ?h ?b (ceil_div (length ?pairs) (length ?tas)) [''s5''] ?st
      = Inr ([(''B'', [[''s1''], [''s3'']]), (''A'', [[''s2''], [''s4''], [''s5'']]), (''C'', [])],
             [Over_capacity [''s5'']])"
    by code_simp
  from place_pair_over_capacity [OF run pairs opts ne full]
  have "\<exists>ta\<in>set [''B'', ''A''].
        place_pair ?tas ?h ?b (ceil_div (length ?pairs) (length ?tas)) [''s5''] ?st
        = Inr (append_group ?st ta [''s5''], [Over_capacity [''s5'']])"
    by blast
  with run opts placed show ?thesis by blast
qed

subsection \<open>When no candidate survives\<close>

lemma remove1_nth_take:
  "distinct xs \<Longrightarrow> i < length xs \<Longrightarrow> take i (remove1 (xs ! i) xs) = take i xs"
proof (induction xs arbitrary: i)
  case Nil
  then show ?case by simp
next
  case (Cons a xs)
  show ?case
  proof (cases i)
    case 0
    then show ?thesis by simp
  next
    case (Suc j)
    with Cons.prems have j: "j < length xs" and d: "distinct xs" and a: "a \<notin> set xs"
      by simp_all
    from j a have "xs ! j \<noteq> a" by (metis nth_mem)
    with Cons.IH [OF d j] Suc show ?thesis by simp
  qed
qed

lemma filter_options_prefix:
  "filter_options history blocks pair i options = Inr result \<Longrightarrow> distinct options \<Longrightarrow>
   take i result = take i options"
proof (induction history blocks pair i options rule: filter_options.induct)
  case (1 history blocks pair i options)
  show ?case
  proof (cases "i < length options")
    case False
    with "1.prems" show ?thesis by (simp add: filter_options.simps [of _ _ _ i options])
  next
    case True
    with "1.prems" obtain options' where
      rb: "remove_blocked history blocks (options ! i) pair options = Inr options'"
      and rest: "filter_options history blocks pair (Suc i) options' = Inr result"
      by (auto simp: filter_options.simps [of _ _ _ i options] split: sum.splits)
    have d': "distinct options'"
      using rb "1.prems"(2) by (rule remove_blocked_distinct)
    from "1.IH" [OF True rb rest d'] have "take (Suc i) result = take (Suc i) options'" .
    then have "take i (take (Suc i) result) = take i (take (Suc i) options')" by simp
    then have "take i result = take i options'" by (simp add: min_def)
    moreover have "take i options' = take i options"
      using remove_blocked_cases [OF "1.prems"(2) rb] remove1_nth_take [OF "1.prems"(2) True]
      by auto
    ultimately show ?thesis by simp
  qed
qed

text \<open>
  The filter can only empty a list of distinct candidates that has at most one element:
  after a removal the next candidate is skipped and stays.
\<close>

lemma filter_options_empty:
  assumes "filter_options history blocks pair 0 options = Inr []" and "distinct options"
  shows "options = [] \<or> (\<exists>ta. options = [ta] \<and> remove_blocked history blocks ta pair [ta] = Inr [])"
proof (cases options)
  case Nil
  then show ?thesis by simp
next
  case (Cons ta rest)
  with assms(1) obtain options' where
    rb: "remove_blocked history blocks ta pair (ta # rest) = Inr options'"
    and after: "filter_options history blocks pair (Suc 0) options' = Inr []"
    by (auto simp: filter_options.simps [of _ _ _ 0 "ta # rest"] split: sum.splits)
  have d: "distinct (ta # rest)"
    using assms(2) Cons by simp
  have "distinct options'"
    using rb d by (rule remove_blocked_distinct)
  from filter_options_prefix [OF after this] have "options' = []"
    by (cases options') simp_all
  with remove_blocked_cases [OF d rb] have "rest = []"
    by auto
  with rb Cons \<open>options' = []\<close> show ?thesis by simp
qed

lemma filter_options_single:
  "remove_blocked history blocks ta pair [ta] = Inr [] \<Longrightarrow>
   filter_options history blocks pair 0 [ta] = Inr []"
  by (simp add: filter_options.simps [of _ _ _ 0 "[ta]"] filter_options.simps [of _ _ _ "Suc 0" "[]"])

text \<open>
  With two or more distinct candidates the filter never leaves none: the branch for a
  group without candidates is reached in runs with a single TA only.
\<close>

lemma filter_options_two_survive:
  assumes "distinct options" and "2 \<le> length options"
  shows "filter_options history blocks pair 0 options \<noteq> Inr []"
proof
  assume "filter_options history blocks pair 0 options = Inr []"
  from filter_options_empty [OF this assms(1)] assms(2) show False by auto
qed

lemma assign_loop_printed:
  "assign_loop tas history blocks cap student_pairs state = Inr state' \<Longrightarrow>
   \<exists>more. snd state' = snd state @ more"
proof (induction student_pairs arbitrary: state)
  case Nil
  then show ?case by simp
next
  case (Cons pair student_pairs)
  from Cons.prems obtain ta2groups msgs where
    rest: "assign_loop tas history blocks cap student_pairs (ta2groups, snd state @ msgs) = Inr state'"
    by (auto split: sum.splits)
  from Cons.IH [OF rest] show ?case by auto
qed

lemma place_pair_result:
  "place_pair tas history blocks cap pair ta2groups = Inr (ta2groups', msgs) \<Longrightarrow>
   ta2groups' = ta2groups \<or> (\<exists>ta. ta2groups' = append_group ta2groups ta pair)"
  by (auto simp: place_pair_def split: if_splits sum.splits option.splits)

lemma place_pair_blocked_single:
  assumes "remove_blocked history blocks ta pair [ta] = Inr []"
    and "place_pair [ta] history blocks cap pair ta2groups = Inr (ta2groups', msgs)"
  shows "ta2groups' = ta2groups"
  using assms(2) filter_options_single [OF assms(1)]
  by (auto simp: place_pair_def split: if_splits)

lemma place_pair_never_placed:
  assumes blocked: "remove_blocked history blocks ta pair [ta] = Inr []"
    and step: "place_pair [ta] history blocks cap g ta2groups = Inr (ta2groups', msgs)"
    and inv: "\<forall>t groups. (t, groups) \<in> set ta2groups \<longrightarrow> pair \<notin> set groups"
  shows "\<forall>t groups. (t, groups) \<in> set ta2groups' \<longrightarrow> pair \<notin> set groups"
proof (cases "g = pair")
  case True
  with place_pair_blocked_single [OF blocked] step have "ta2groups' = ta2groups" by blast
  with inv show ?thesis by simp
next
  case False
  from place_pair_result [OF step] show ?thesis
  proof
    assume "ta2groups' = ta2groups"
    with inv show ?thesis by simp
  next
    assume "\<exists>u. ta2groups' = append_group ta2groups u g"
    then obtain u where u: "ta2groups' = append_group ta2groups u g" ..
    show ?thesis
    proof (intro allI impI)
      fix t groups assume "(t, groups) \<in> set ta2groups'"
      with u set_append_group [of t groups ta2groups u g] obtain groups' where
        "(t, groups') \<in> set ta2groups" "groups = groups' \<or> groups = groups' @ [g]"
        by blast
      with inv False show "pair \<notin> set groups" by auto
    qed
  qed
qed

lemma assign_loop_never_placed:
  assumes blocked: "remove_blocked history blocks ta pair [ta] = Inr []"
  shows "assign_loop [ta] history blocks cap student_pairs state = Inr state' \<Longrightarrow>
    \<forall>t groups. (t, groups) \<in> set (fst state) \<longrightarrow> pair \<notin> set groups \<Longrightarrow>
    \<forall>t groups. (t, groups) \<in> set (fst state') \<longrightarrow> pair \<notin> set groups"
proof (induction student_pairs arbitrary: state)
  case Nil
  then show ?case by simp
next
  case (Cons g student_pairs)
  from Cons.prems(1) obtain ta2groups msgs where
    step: "place_pair [ta] history blocks cap g (fst state) = Inr (ta2groups, msgs)"
    and rest: "assign_loop [ta] history blocks cap student_pairs (ta2groups, snd state @ msgs) = Inr state'"
    by (auto split: sum.splits)
  from place_pair_never_placed [OF blocked step Cons.prems(2)]
  have "\<forall>t groups. (t, groups) \<in> set (fst (ta2groups, snd state @ msgs)) \<longrightarrow> pair \<notin> set groups"
    by simp
  from Cons.IH [OF rest this] show ?case .
qed

lemma sort_key_single:
  assumes "sort_key f xs = [x]"
  shows "xs = [x]"
proof -
  from assms have "length xs = 1" by (metis length_sort length_Cons list.size(3) One_nat_def)
  then obtain y where "xs = [y]" by (cases xs) auto
  with assms show ?thesis by simp
qed

text \<open>
  The branch for a group without candidates, as the source has it. Take any run over
  distinct TAs and any group \<open>pair\<close> of its list for which the filter leaves no candidate.
  The round for that group does not raise: it prints the line about the group, leaves the
  allocation as it was, and the loop goes on with the groups after it. If the call then
  returns, the line is among those printed and the group is in no TA's list. By
  \<open>filter_options_two_survive\<close> the hypothesis on the filter holds in runs with a single TA
  only.
\<close>

lemma place_pair_unplaceable:
  assumes run: "assign_loop tas history blocks (ceil_div (length student_pairs) (length tas)) pre
                  (init_ta2groups tas, []) = Inr (ta2groups, printed)"
    and pairs: "student_pairs = pre @ pair # post"
    and opts: "filter_options history blocks pair 0 (sort_key (load ta2groups) tas) = Inr []"
    and dist: "distinct tas"
  shows "place_pair tas history blocks (ceil_div (length student_pairs) (length tas)) pair ta2groups
        = Inr (ta2groups, [Conflicts_with_all pair])
    \<and> assign_loop tas history blocks (ceil_div (length student_pairs) (length tas)) student_pairs
          (init_ta2groups tas, [])
        = assign_loop tas history blocks (ceil_div (length student_pairs) (length tas)) post
            (ta2groups, printed @ [Conflicts_with_all pair])
    \<and> (\<forall>final out. assign_project tas student_pairs history blocks = Inr (final, out) \<longrightarrow>
          Conflicts_with_all pair \<in> set out \<and>
          (\<forall>ta groups. (ta, groups) \<in> set final \<longrightarrow> pair \<notin> set groups))"
proof (intro conjI allI impI)
  let ?cap = "ceil_div (length student_pairs) (length tas)"
  have keys: "map fst ta2groups = tas" using run by (rule reached_keys)
  then have guard: "set tas \<subseteq> fst ` set ta2groups" by (metis set_map subset_refl)
  show step: "place_pair tas history blocks ?cap pair ta2groups
      = Inr (ta2groups, [Conflicts_with_all pair])"
    using guard opts by (simp add: place_pair_def)
  show whole: "assign_loop tas history blocks ?cap student_pairs (init_ta2groups tas, [])
      = assign_loop tas history blocks ?cap post (ta2groups, printed @ [Conflicts_with_all pair])"
    using run step by (simp add: pairs assign_loop_append)
  fix final out
  assume returned: "assign_project tas student_pairs history blocks = Inr (final, out)"
  then have tas: "tas \<noteq> []"
    by (auto simp: assign_project_def split: if_splits)
  from returned obtain out0 where
    loop: "assign_loop tas history blocks ?cap student_pairs (init_ta2groups tas, []) = Inr (final, out0)"
    and out: "out = out0 @ snd (project_conflicts final blocks)"
    by (auto simp: assign_project_def split: if_splits sum.splits prod.splits)
  from loop whole have
    "assign_loop tas history blocks ?cap post (ta2groups, printed @ [Conflicts_with_all pair])
      = Inr (final, out0)"
    by simp
  from assign_loop_printed [OF this] out
  show "Conflicts_with_all pair \<in> set out" by auto
  have "distinct (sort_key (load ta2groups) tas)" using dist by simp
  moreover have "sort_key (load ta2groups) tas \<noteq> []"
    using tas by (metis length_sort length_0_conv)
  ultimately obtain x where
    "sort_key (load ta2groups) tas = [x]"
    and blocked: "remove_blocked history blocks x pair [x] = Inr []"
    using filter_options_empty [OF opts] by blast
  then have single: "tas = [x]" by (simp add: sort_key_single)
  have "\<forall>t groups. (t, groups) \<in> set (fst (init_ta2groups [x], [] :: msg list)) \<longrightarrow> pair \<notin> set groups"
    by (simp add: init_ta2groups_def)
  from assign_loop_never_placed [OF blocked loop [unfolded single] this]
  show "\<And>ta groups. (ta, groups) \<in> set final \<Longrightarrow> pair \<notin> set groups"
    by simp
qed

lemma place_pair_unplaceable_single_ta:
  "assign_loop [''X''] [''X'' \<mapsto> {''s1''}] [''X'' \<mapsto> {}]
      (ceil_div (length [[''s1''], [''s2'']]) (length [''X''])) [] (init_ta2groups [''X''], [])
     = Inr ([(''X'', [])], [])
   \<and> filter_options [''X'' \<mapsto> {''s1''}] [''X'' \<mapsto> {}] [''s1''] 0 (sort_key (load [(''X'', [])]) [''X''])
     = Inr []
   \<and> distinct [''X'']
   \<and> assign_project [''X''] [[''s1''], [''s2'']] [''X'' \<mapsto> {''s1''}] [''X'' \<mapsto> {}]
     = Inr ([(''X'', [[''s2'']])], [Conflicts_with_all [''s1'']])
   \<and> Conflicts_with_all [''s1''] \<in> set [Conflicts_with_all [''s1'']]
   \<and> [''s1''] \<notin> set [[''s2'']]"
proof -
  let ?h = "[''X'' \<mapsto> {''s1''}]"
  let ?b = "[''X'' \<mapsto> {}] :: students_of"
  let ?pairs = "[[''s1''], [''s2'']]"
  have run: "assign_loop [''X''] ?h ?b (ceil_div (length ?pairs) (length [''X''])) []
      (init_ta2groups [''X''], []) = Inr ([(''X'', [])], [])"
    by code_simp
  have pairs: "?pairs = [] @ [''s1''] # [[''s2'']]"
    by simp
  have opts: "filter_options ?h ?b [''s1''] 0 (sort_key (load [(''X'', [])]) [''X'']) = Inr []"
    by code_simp
  have dist: "distinct [''X'']"
    by simp
  have returned: "assign_project [''X''] ?pairs ?h ?b
      = Inr ([(''X'', [[''s2'']])], [Conflicts_with_all [''s1'']])"
    by code_simp
  from place_pair_unplaceable [OF run pairs opts dist] returned
  have "Conflicts_with_all [''s1''] \<in> set [Conflicts_with_all [''s1'']]
      \<and> (\<forall>ta groups. (ta, groups) \<in> set [(''X'', [[''s2'']])] \<longrightarrow> [''s1''] \<notin> set groups)"
    by blast
  then have "Conflicts_with_all [''s1''] \<in> set [Conflicts_with_all [''s1'']]
      \<and> [''s1''] \<notin> set [[''s2'']]"
    by simp
  with run opts dist returned show ?thesis by blast
qed

text \<open>
  C6 (the source at a failing input). Two TAs, the groups \<open>{s1}\<close> and \<open>{s2}\<close>. Each TA is
  excluded for \<open>{s1}\<close>, in the first run by the history and in the second by the blocks,
  so no candidate ought to survive and the group ought to be reported and left out. The
  filter removes the first candidate and skips the second, which survives. In the first
  run the group is given to it, nothing is reported and the returned allocation lists
  \<open>{s1}\<close> under that TA; in the second run the closing assertion finds the blocked student
  and the call raises \<open>AssertionError\<close>. Both hold in either order of enumeration of the
  TAs.
\<close>

theorem assign_project_unplaceable_is_placed:
  "[''X'' \<mapsto> {''s1''}, ''Y'' \<mapsto> {''s1''}] ''X'' = Some {''s1''}
   \<and> [''X'' \<mapsto> {''s1''}, ''Y'' \<mapsto> {''s1''}] ''Y'' = Some {''s1''}
   \<and> filter_options [''X'' \<mapsto> {''s1''}, ''Y'' \<mapsto> {''s1''}] [''X'' \<mapsto> {}, ''Y'' \<mapsto> {}] [''s1''] 0
        (sort_key (load (init_ta2groups [''X'', ''Y''])) [''X'', ''Y'']) = Inr [''Y'']
   \<and> filter_options [''X'' \<mapsto> {''s1''}, ''Y'' \<mapsto> {''s1''}] [''X'' \<mapsto> {}, ''Y'' \<mapsto> {}] [''s1''] 0
        (sort_key (load (init_ta2groups [''Y'', ''X''])) [''Y'', ''X'']) = Inr [''X'']
   \<and> assign_project [''X'', ''Y''] [[''s1''], [''s2'']] [''X'' \<mapsto> {''s1''}, ''Y'' \<mapsto> {''s1''}]
        [''X'' \<mapsto> {}, ''Y'' \<mapsto> {}]
      = Inr ([(''X'', [[''s2'']]), (''Y'', [[''s1'']])], [])
   \<and> assign_project [''Y'', ''X''] [[''s1''], [''s2'']] [''X'' \<mapsto> {''s1''}, ''Y'' \<mapsto> {''s1''}]
        [''X'' \<mapsto> {}, ''Y'' \<mapsto> {}]
      = Inr ([(''Y'', [[''s2'']]), (''X'', [[''s1'']])], [])
   \<and> assign_project [''X'', ''Y''] [[''s1''], [''s2'']] [''X'' \<mapsto> {}, ''Y'' \<mapsto> {}]
        [''X'' \<mapsto> {''s1''}, ''Y'' \<mapsto> {''s1''}]
      = Inl AssertionError
   \<and> assign_project [''Y'', ''X''] [[''s1''], [''s2'']] [''X'' \<mapsto> {}, ''Y'' \<mapsto> {}]
        [''X'' \<mapsto> {''s1''}, ''Y'' \<mapsto> {''s1''}]
      = Inl AssertionError"
  by code_simp

subsection \<open>The history updater\<close>

lemma add_pair_Some:
  "curr_history ta = Some h \<Longrightarrow>
   add_pair ta pair curr_history = Inr (curr_history(ta \<mapsto> h \<union> set pair))"
  by (induction pair arbitrary: curr_history h) (auto simp: fun_eq_iff)

lemma add_pair_None:
  "curr_history ta = None \<Longrightarrow>
   add_pair ta pair curr_history = (if pair = [] then Inr curr_history else Inl KeyError)"
  by (cases pair) simp_all

lemma add_groups_Some:
  "curr_history ta = Some h \<Longrightarrow>
   add_groups ta groups curr_history = Inr (curr_history(ta \<mapsto> h \<union> \<Union>(set ` set groups)))"
  by (induction groups arbitrary: curr_history h) (auto simp: add_pair_Some Un_assoc)

lemma add_groups_None:
  "curr_history ta = None \<Longrightarrow>
   add_groups ta groups curr_history =
     (if \<forall>pair\<in>set groups. pair = [] then Inr curr_history else Inl KeyError)"
  by (induction groups) (auto simp: add_pair_None)

lemma add_groups_cases:
  "add_groups ta groups curr_history =
     (if curr_history ta = None \<and> (\<exists>pair\<in>set groups. pair \<noteq> []) then Inl KeyError
      else Inr (merged curr_history (\<lambda>t. if t = ta then \<Union>(set ` set groups) else {})))"
proof (cases "curr_history ta")
  case None
  then have "merged curr_history (\<lambda>t. if t = ta then \<Union>(set ` set groups) else {}) = curr_history"
    by (auto simp: merged_def fun_eq_iff map_option_case split: option.splits)
  with None show ?thesis by (simp add: add_groups_None)
next
  case (Some h)
  then have "merged curr_history (\<lambda>t. if t = ta then \<Union>(set ` set groups) else {})
      = curr_history(ta \<mapsto> h \<union> \<Union>(set ` set groups))"
    by (auto simp: merged_def fun_eq_iff map_option_case split: option.splits)
  with Some show ?thesis by (simp add: add_groups_Some)
qed

lemma merged_None [simp]: "merged curr_history added ta = None \<longleftrightarrow> curr_history ta = None"
  by (simp add: merged_def)

lemma merged_merged:
  "merged (merged curr_history a) b = merged curr_history (\<lambda>ta. a ta \<union> b ta)"
  by (auto simp: merged_def fun_eq_iff map_option_case Un_assoc split: option.splits)

lemma merged_empty: "merged curr_history (\<lambda>t. {}) = curr_history"
  by (auto simp: merged_def fun_eq_iff map_option_case split: option.splits)

lemma assigned_students_Nil: "assigned_students [] = (\<lambda>t. {})"
  by (simp add: assigned_students_def fun_eq_iff)

lemma assigned_students_Cons:
  "assigned_students ((ta, groups) # items) =
     (\<lambda>t. (if t = ta then \<Union>(set ` set groups) else {}) \<union> assigned_students items t)"
  by (auto simp: assigned_students_def fun_eq_iff)

lemma add_items_cases:
  "add_items items curr_history =
     (if recordable curr_history items then Inr (merged curr_history (assigned_students items))
      else Inl KeyError)"
proof (induction items arbitrary: curr_history)
  case Nil
  show ?case by (simp add: recordable_def assigned_students_Nil merged_empty)
next
  case (Cons item items)
  obtain ta groups where item: "item = (ta, groups)" by (cases item)
  have rec: "recordable curr_history ((ta, groups) # items) \<longleftrightarrow>
      \<not> (curr_history ta = None \<and> (\<exists>pair\<in>set groups. pair \<noteq> [])) \<and> recordable curr_history items"
    by (auto simp: recordable_def)
  have rec': "recordable (merged curr_history added) items \<longleftrightarrow> recordable curr_history items" for added
    by (simp add: recordable_def)
  show ?case
    unfolding item
    by (simp add: add_groups_cases Cons.IH rec rec' merged_merged assigned_students_Cons)
qed

text \<open>
  The updater in closed form: it raises \<open>KeyError\<close> when a TA with a student to record has
  no history entry, and otherwise every entry is its union with the students assigned to
  that TA.
\<close>

lemma update_project_history_cases:
  "update_project_history curr_history curr_groups =
     (if recordable curr_history curr_groups
      then Inr (merged curr_history (assigned_students curr_groups))
      else Inl KeyError)"
  by (simp add: update_project_history_def add_items_cases)

text \<open>
  C8. When every TA of the allocation has a history entry (in particular when the two
  dictionaries have the same keys), the updater returns a history with the same keys in
  which every TA's set is the old set together with every student of every group listed
  under that TA. On Scenario D, in either order in which the group \<open>{s1, s2}\<close> is
  enumerated, the result is \<open>{X: {s1, s2, s3}}\<close>.
\<close>

theorem update_project_history_union:
  "(fst ` set curr_groups \<subseteq> dom curr_history \<longrightarrow>
      (\<exists>new_history. update_project_history curr_history curr_groups = Inr new_history \<and>
         dom new_history = dom curr_history \<and>
         (\<forall>ta h. curr_history ta = Some h \<longrightarrow>
            new_history ta = Some (h \<union> {student. \<exists>groups pair. (ta, groups) \<in> set curr_groups \<and>
               pair \<in> set groups \<and> student \<in> set pair}))))
   \<and> update_project_history [''X'' \<mapsto> {''s3''}] [(''X'', [[''s1'', ''s2'']])]
        = Inr [''X'' \<mapsto> {''s1'', ''s2'', ''s3''}]
   \<and> update_project_history [''X'' \<mapsto> {''s3''}] [(''X'', [[''s2'', ''s1'']])]
        = Inr [''X'' \<mapsto> {''s1'', ''s2'', ''s3''}]"
proof (intro conjI impI)
  assume keys: "fst ` set curr_groups \<subseteq> dom curr_history"
  then have "recordable curr_history curr_groups"
    by (force simp: recordable_def)
  then have "update_project_history curr_history curr_groups
      = Inr (merged curr_history (assigned_students curr_groups))"
    by (simp add: update_project_history_cases)
  moreover have "dom (merged curr_history (assigned_students curr_groups)) = dom curr_history"
    by (auto simp: dom_def)
  moreover have "\<forall>ta h. curr_history ta = Some h \<longrightarrow>
      merged curr_history (assigned_students curr_groups) ta
        = Some (h \<union> {student. \<exists>groups pair. (ta, groups) \<in> set curr_groups \<and>
           pair \<in> set groups \<and> student \<in> set pair})"
    by (simp add: merged_def assigned_students_def)
  ultimately show "\<exists>new_history. update_project_history curr_history curr_groups = Inr new_history \<and>
         dom new_history = dom curr_history \<and>
         (\<forall>ta h. curr_history ta = Some h \<longrightarrow>
            new_history ta = Some (h \<union> {student. \<exists>groups pair. (ta, groups) \<in> set curr_groups \<and>
               pair \<in> set groups \<and> student \<in> set pair}))"
    by blast
next
  show "update_project_history [''X'' \<mapsto> {''s3''}] [(''X'', [[''s1'', ''s2'']])]
        = Inr [''X'' \<mapsto> {''s1'', ''s2'', ''s3''}]"
    by (simp add: update_project_history_def insert_commute)
next
  show "update_project_history [''X'' \<mapsto> {''s3''}] [(''X'', [[''s2'', ''s1'']])]
        = Inr [''X'' \<mapsto> {''s1'', ''s2'', ''s3''}]"
    by (simp add: update_project_history_def insert_commute)
qed

theorem update_project_history_union_witness:
  "fst ` set [(''X'', [[''s1'', ''s2'']]), (''Y'', [])] \<subseteq> dom [''X'' \<mapsto> {''s3''}, ''Y'' \<mapsto> {''s4''}]
   \<and> (\<exists>new_history.
        update_project_history [''X'' \<mapsto> {''s3''}, ''Y'' \<mapsto> {''s4''}] [(''X'', [[''s1'', ''s2'']]), (''Y'', [])]
          = Inr new_history
        \<and> new_history ''X'' = Some {''s1'', ''s2'', ''s3''}
        \<and> new_history ''Y'' = Some {''s4''})"
proof -
  let ?h = "[''X'' \<mapsto> {''s3''}, ''Y'' \<mapsto> {''s4''}]"
  let ?g = "[(''X'', [[''s1'', ''s2'']]), (''Y'', [])]"
  have keys: "fst ` set ?g \<subseteq> dom ?h" by simp
  from update_project_history_union [of ?g ?h] keys
  obtain new_history where run: "update_project_history ?h ?g = Inr new_history"
    and new: "\<forall>ta h. ?h ta = Some h \<longrightarrow>
            new_history ta = Some (h \<union> {student. \<exists>groups pair. (ta, groups) \<in> set ?g \<and>
               pair \<in> set groups \<and> student \<in> set pair})"
    by blast
  from new have "new_history ''X'' = Some ({''s3''} \<union> {student. \<exists>groups pair. (''X'', groups) \<in> set ?g \<and>
               pair \<in> set groups \<and> student \<in> set pair})"
    by simp
  moreover have "{''s3''} \<union> {student. \<exists>groups pair. (''X'', groups) \<in> set ?g \<and>
               pair \<in> set groups \<and> student \<in> set pair} = {''s1'', ''s2'', ''s3''}"
    by auto
  moreover from new have "new_history ''Y'' = Some ({''s4''} \<union> {student. \<exists>groups pair. (''Y'', groups) \<in> set ?g \<and>
               pair \<in> set groups \<and> student \<in> set pair})"
    by simp
  moreover have "{''s4''} \<union> {student. \<exists>groups pair. (''Y'', groups) \<in> set ?g \<and>
               pair \<in> set groups \<and> student \<in> set pair} = {''s4''}"
    by auto
  ultimately show ?thesis using keys run by simp
qed

text \<open>
  C9. Whenever the updater returns, running it again on its result with the same allocation
  returns that result unchanged, and every set of the input history is contained in the set
  the result has for the same TA.
\<close>

theorem update_project_history_idempotent_monotonic:
  assumes "update_project_history curr_history curr_groups = Inr new_history"
  shows "update_project_history new_history curr_groups = Inr new_history \<and>
    (\<forall>ta h. curr_history ta = Some h \<longrightarrow> (\<exists>h'. new_history ta = Some h' \<and> h \<subseteq> h'))"
proof -
  from assms have rec: "recordable curr_history curr_groups"
    and new: "new_history = merged curr_history (assigned_students curr_groups)"
    by (auto simp: update_project_history_cases split: if_splits)
  have "recordable new_history curr_groups"
    using rec by (simp add: new recordable_def)
  then have "update_project_history new_history curr_groups
      = Inr (merged new_history (assigned_students curr_groups))"
    by (simp add: update_project_history_cases)
  moreover have "merged new_history (assigned_students curr_groups) = new_history"
    by (simp add: new merged_merged)
  moreover have "\<forall>ta h. curr_history ta = Some h \<longrightarrow> (\<exists>h'. new_history ta = Some h' \<and> h \<subseteq> h')"
    by (auto simp: new merged_def)
  ultimately show ?thesis by simp
qed

theorem update_project_history_idempotent_monotonic_witness:
  "update_project_history [''X'' \<mapsto> {''s3''}] [(''X'', [[''s1'', ''s2'']])]
      = Inr [''X'' \<mapsto> {''s1'', ''s2'', ''s3''}]
   \<and> update_project_history [''X'' \<mapsto> {''s1'', ''s2'', ''s3''}] [(''X'', [[''s1'', ''s2'']])]
      = Inr [''X'' \<mapsto> {''s1'', ''s2'', ''s3''}]
   \<and> {''s3''} \<subseteq> {''s1'', ''s2'', ''s3''}"
proof -
  have run: "update_project_history [''X'' \<mapsto> {''s3''}] [(''X'', [[''s1'', ''s2'']])]
      = Inr [''X'' \<mapsto> {''s1'', ''s2'', ''s3''}]"
    by (simp add: update_project_history_def insert_commute)
  from update_project_history_idempotent_monotonic [OF run]
  have "update_project_history [''X'' \<mapsto> {''s1'', ''s2'', ''s3''}] [(''X'', [[''s1'', ''s2'']])]
      = Inr [''X'' \<mapsto> {''s1'', ''s2'', ''s3''}]"
    by blast
  with run show ?thesis by simp
qed

end
